theory Spec2Isabelle
  imports Main "HOL-Library.Word"
begin

unbundle bit_operations_syntax

section \<open>Data model of \<^verbatim>\<open>audio_playback.c\<close>\<close>

text \<open>
  The target is a 32-bit microcontroller: \<^verbatim>\<open>size_t\<close> and \<^verbatim>\<open>uint32_t\<close> are 32-bit
  unsigned integers, so every offset computation of the source wraps modulo \<open>2 ^ 32\<close>.
\<close>

type_synonym size_t = "32 word"
type_synonym uint32_t = "32 word"
type_synonym uint8_t = "8 word"
type_synonym usbep_t = "8 word"

text \<open>A \<^verbatim>\<open>mailbox_t *\<close> is kept as its address; \<open>0\<close> is \<^verbatim>\<open>NULL\<close>.\<close>

type_synonym mailbox_ptr = nat

datatype msg_t = AUDIO_COMMON_MSG_START_PLAYBACK | AUDIO_COMMON_MSG_STOP_PLAYBACK

datatype i2sstate_t = I2S_UNINIT | I2S_STOP | I2S_READY | I2S_ACTIVE | I2S_COMPLETE

text \<open>
  The two ways in which a call can fail to return: the debug assertion of
  \<^verbatim>\<open>audio_playback_update_write_offset\<close>, and a byte access outside of the storage of
  \<^verbatim>\<open>g_playback.buffer\<close>.
\<close>

datatype fault = AssertFailed | OutOfBounds

text \<open>
  The compile-time configuration. The macros are declared in headers that are not part of
  the sources at hand, so they are parameters of the model.
  \<open>AUDIO_COMMON_GET_PACKET_SIZE\<close> is the macro of that name, applied to channel count,
  sample rate and sample size.
\<close>

record audio_config =
  AUDIO_CHANNEL_COUNT :: size_t
  AUDIO_SAMPLE_SIZE :: size_t
  AUDIO_RESOLUTION_BIT :: nat
  AUDIO_BUFFER_PACKET_COUNT :: size_t
  AUDIO_MAX_BUFFER_SIZE :: size_t
  AUDIO_MAX_PACKET_SIZE :: size_t
  AUDIO_PLAYBACK_ENDPOINT :: usbep_t
  AUDIO_FEEDBACK_ENDPOINT :: usbep_t
  AUDIO_COMMON_GET_PACKET_SIZE :: "size_t \<Rightarrow> uint32_t \<Rightarrow> size_t \<Rightarrow> size_t"

text \<open>\<^verbatim>\<open>struct audio_playback\<close>, field by field.\<close>

record audio_playback =
  packet_size :: size_t
  buffer :: "uint8_t list"
  buffer_size :: size_t
  buffer_write_offset :: size_t
  buffer_read_offset :: size_t
  buffer_target_fill_size :: size_t
  buffer_fill_size :: size_t
  b_streaming_enabled :: bool
  b_playback_enabled :: bool

text \<open>
  Calls into the operating system and the USB driver, in the order in which they are made.
  \<open>usbStartReceiveI ep off n\<close> arms reception on endpoint \<open>ep\<close> into
  \<^verbatim>\<open>&g_playback.buffer[off]\<close> for at most \<open>n\<close> bytes.
\<close>

datatype os_call =
  chMBPostI mailbox_ptr msg_t
| usbStartTransmitI usbep_t size_t
| usbStartReceiveI usbep_t size_t size_t

text \<open>
  The state of the module: the global \<^verbatim>\<open>g_playback\<close>, the static \<^verbatim>\<open>gp_mailbox\<close>, and
  the log of the calls made so far.
\<close>

record module_state = audio_playback +
  gp_mailbox :: mailbox_ptr
  os_calls :: "os_call list"

text \<open>
  What a run of \<^verbatim>\<open>audio_playback_received_cb\<close> reads from the peripherals: the size of
  the finished USB transaction, the DMA stream's \<^verbatim>\<open>NDTR\<close> register and the state of the
  I2S driver.
\<close>

record hw_inputs =
  usbGetReceiveTransactionSizeX :: size_t
  NDTR :: uint32_t
  I2S_DRIVER_state :: i2sstate_t

text \<open>The messages posted to a mailbox, in order.\<close>

fun posted :: "os_call list \<Rightarrow> msg_t list" where
  "posted [] = []"
| "posted (chMBPostI mb m # cs) = m # posted cs"
| "posted (usbStartTransmitI ep n # cs) = posted cs"
| "posted (usbStartReceiveI ep off n # cs) = posted cs"

section \<open>Helpers declared outside of the sources at hand\<close>

text \<open>
  Modelled from the spec: \<^verbatim>\<open>wrap_unsigned\<close> is not part of the sources at hand. The
  specification says that the write offset "is normalized modulo
  \<^verbatim>\<open>nominal_buffer_size\<close>".
\<close>

definition wrap_unsigned :: "size_t \<Rightarrow> size_t \<Rightarrow> size_t" where
  "wrap_unsigned v max_value = v mod max_value"

text \<open>
  Modelled from the spec: \<^verbatim>\<open>subtract_circular_unsigned\<close> is not part of the sources at
  hand. The specification calls the fill size "the circular forward distance from
  \<^verbatim>\<open>read_offset\<close> to \<^verbatim>\<open>write_offset\<close> modulo \<^verbatim>\<open>nominal_buffer_size\<close>".
\<close>

definition subtract_circular_unsigned :: "size_t \<Rightarrow> size_t \<Rightarrow> size_t \<Rightarrow> size_t" where
  "subtract_circular_unsigned a b max_value = word_of_int ((uint a - uint b) mod uint max_value)"

text \<open>
  Modelled from the spec: the macro \<^verbatim>\<open>AUDIO_COMMON_GET_BUFFER_SIZE\<close> is not part of the
  sources at hand. The specification gives
  \<^verbatim>\<open>nominal_buffer_size = packet_size * buffer_capacity_packets\<close>.
\<close>

definition AUDIO_COMMON_GET_BUFFER_SIZE :: "size_t \<Rightarrow> size_t \<Rightarrow> size_t" where
  "AUDIO_COMMON_GET_BUFFER_SIZE packet_count psize = packet_count * psize"

text \<open>
  Modelled from the spec: the macro \<^verbatim>\<open>SWAP_HALF_WORDS\<close> is not part of the sources at
  hand. The specification has the half-words \<^verbatim>\<open>[0x1234, 0x5678]\<close> of a sample become
  \<^verbatim>\<open>[0x5678, 0x1234]\<close>.
\<close>

definition SWAP_HALF_WORDS :: "uint32_t \<Rightarrow> uint32_t" where
  "SWAP_HALF_WORDS w = drop_bit 16 w OR push_bit 16 w"

section \<open>Byte accesses to the buffer\<close>

text \<open>
  A 32-bit access through \<^verbatim>\<open>uint32_t *p_word\<close> at byte index \<open>p\<close> of the buffer
  (little endian). An access that leaves the storage of the array is a fault of the model.
\<close>

definition load32 :: "uint8_t list \<Rightarrow> nat \<Rightarrow> fault + uint32_t" where
  "load32 buf p =
     (if p + 4 \<le> length buf
      then Inr (ucast (buf ! p) OR push_bit 8 (ucast (buf ! (p + 1)))
                OR push_bit 16 (ucast (buf ! (p + 2))) OR push_bit 24 (ucast (buf ! (p + 3))))
      else Inl OutOfBounds)"

definition store32 :: "uint8_t list \<Rightarrow> nat \<Rightarrow> uint32_t \<Rightarrow> fault + uint8_t list" where
  "store32 buf p w =
     (if p + 4 \<le> length buf
      then Inr (buf[p := ucast w, p + 1 := ucast (drop_bit 8 w),
                    p + 2 := ucast (drop_bit 16 w), p + 3 := ucast (drop_bit 24 w)])
      else Inl OutOfBounds)"

text \<open>
  The loop \<^verbatim>\<open>for (word_index = 0; word_index < WORD_COUNT; word_index++)\<close>, by the number
  of words that are left; \<open>p\<close> is the byte index \<^verbatim>\<open>p_word\<close> points to.
\<close>

fun swap_loop :: "nat \<Rightarrow> nat \<Rightarrow> uint8_t list \<Rightarrow> fault + uint8_t list" where
  "swap_loop 0 p buf = Inr buf"
| "swap_loop (Suc n) p buf =
     (case load32 buf p of
        Inl e \<Rightarrow> Inl e
      | Inr w \<Rightarrow>
          (case store32 buf p (SWAP_HALF_WORDS w) of
             Inl e \<Rightarrow> Inl e
           | Inr buf' \<Rightarrow> swap_loop n (p + 4) buf'))"

text \<open>
  \<^verbatim>\<open>memcpy\<close> within the buffer, as the forward copy of \<open>n\<close> bytes from index \<open>src\<close> to
  index \<open>dst\<close>. (C leaves a copy between overlapping regions undefined; here the source
  region never lies below the destination, and the forward copy then moves the original
  bytes.)
\<close>

fun memcpy_bytes :: "nat \<Rightarrow> nat \<Rightarrow> nat \<Rightarrow> uint8_t list \<Rightarrow> fault + uint8_t list" where
  "memcpy_bytes dst src 0 buf = Inr buf"
| "memcpy_bytes dst src (Suc n) buf =
     (if src < length buf \<and> dst < length buf
      then memcpy_bytes (Suc dst) (Suc src) n (buf[dst := buf ! src])
      else Inl OutOfBounds)"

section \<open>The functions of the module\<close>

text \<open>\<^verbatim>\<open>ARRAY_LENGTH(g_playback.buffer)\<close>, from the declaration of the array.\<close>

definition ARRAY_LENGTH_buffer :: "audio_config \<Rightarrow> size_t" where
  "ARRAY_LENGTH_buffer cfg = AUDIO_MAX_BUFFER_SIZE cfg + AUDIO_MAX_PACKET_SIZE cfg"

definition audio_playback_init :: "mailbox_ptr \<Rightarrow> bool \<Rightarrow> module_state \<Rightarrow> module_state" where
  "audio_playback_init p_mailbox streaming s =
     s\<lparr>gp_mailbox := p_mailbox,
       buffer_write_offset := 0,
       buffer_read_offset := 0,
       buffer_fill_size := 0,
       b_playback_enabled := False,
       b_streaming_enabled := streaming\<rparr>"

definition audio_playback_reset :: "module_state \<Rightarrow> module_state" where
  "audio_playback_reset s = audio_playback_init (gp_mailbox s) (b_streaming_enabled s) s"

definition audio_playback_set_sample_rate ::
  "audio_config \<Rightarrow> uint32_t \<Rightarrow> module_state \<Rightarrow> module_state" where
  "audio_playback_set_sample_rate cfg sample_rate_hz s =
     (let s1 = s\<lparr>packet_size :=
                   AUDIO_COMMON_GET_PACKET_SIZE cfg (AUDIO_CHANNEL_COUNT cfg) sample_rate_hz
                     (AUDIO_SAMPLE_SIZE cfg)\<rparr>;
          s2 = s1\<lparr>buffer_size :=
                   AUDIO_COMMON_GET_BUFFER_SIZE (AUDIO_BUFFER_PACKET_COUNT cfg) (packet_size s1)\<rparr>
      in s2\<lparr>buffer_target_fill_size := buffer_size s2 div 2 + packet_size s2 div 2\<rparr>)"

text \<open>
  The part of \<^verbatim>\<open>audio_playback_update_write_offset\<close> under
  \<^verbatim>\<open>#if AUDIO_RESOLUTION_BIT == 32u\<close>: the received words have their halves swapped in
  place.
\<close>

definition swap_received_words ::
  "audio_config \<Rightarrow> size_t \<Rightarrow> module_state \<Rightarrow> fault + uint8_t list" where
  "swap_received_words cfg transaction_size s =
     (if AUDIO_RESOLUTION_BIT cfg = 32
      then let WORD_COUNT = transaction_size div AUDIO_SAMPLE_SIZE cfg
           in swap_loop (unat WORD_COUNT) (unat (buffer_write_offset s)) (buffer s)
      else Inr (buffer s))"

text \<open>The copy of the excess back to the start of the buffer.\<close>

definition copy_excess :: "size_t \<Rightarrow> size_t \<Rightarrow> uint8_t list \<Rightarrow> fault + uint8_t list" where
  "copy_excess new_buffer_write_offset bsize buf =
     (if new_buffer_write_offset > bsize
      then let excess_byte_count = new_buffer_write_offset - bsize
           in memcpy_bytes 0 (unat bsize) (unat excess_byte_count) buf
      else Inr buf)"

definition audio_playback_update_write_offset ::
  "audio_config \<Rightarrow> size_t \<Rightarrow> module_state \<Rightarrow> fault + module_state" where
  "audio_playback_update_write_offset cfg transaction_size s =
     (let new_buffer_write_offset = buffer_write_offset s + transaction_size
      in if \<not> new_buffer_write_offset < ARRAY_LENGTH_buffer cfg then Inl AssertFailed
         else case swap_received_words cfg transaction_size s of
                Inl e \<Rightarrow> Inl e
              | Inr swapped \<Rightarrow>
                  (case copy_excess new_buffer_write_offset (buffer_size s) swapped of
                     Inl e \<Rightarrow> Inl e
                   | Inr copied \<Rightarrow>
                       Inr (s\<lparr>buffer := copied,
                              buffer_write_offset :=
                                wrap_unsigned new_buffer_write_offset (buffer_size s)\<rparr>)))"

definition audio_playback_update_read_offset ::
  "audio_config \<Rightarrow> hw_inputs \<Rightarrow> module_state \<Rightarrow> module_state" where
  "audio_playback_update_read_offset cfg hw s =
     (let ndtr_value = NDTR hw;
          transferrable_sample_count =
            (if AUDIO_RESOLUTION_BIT cfg = 32 then ndtr_value div 2 else ndtr_value)
      in if I2S_DRIVER_state hw = I2S_ACTIVE
         then s\<lparr>buffer_read_offset :=
                  buffer_size s - AUDIO_SAMPLE_SIZE cfg * transferrable_sample_count\<rparr>
         else s\<lparr>buffer_read_offset := 0\<rparr>)"

definition audio_playback_update_fill_size :: "module_state \<Rightarrow> module_state" where
  "audio_playback_update_fill_size s =
     s\<lparr>buffer_fill_size :=
         subtract_circular_unsigned (buffer_write_offset s) (buffer_read_offset s) (buffer_size s)\<rparr>"

definition audio_playback_is_enabled :: "module_state \<Rightarrow> bool" where
  "audio_playback_is_enabled s = b_playback_enabled s"

definition audio_playback_start :: "module_state \<Rightarrow> module_state" where
  "audio_playback_start s =
     (if audio_playback_is_enabled s then s
      else if buffer_fill_size s \<ge> buffer_target_fill_size s
      then s\<lparr>b_playback_enabled := True,
             os_calls := os_calls s @ [chMBPostI (gp_mailbox s) AUDIO_COMMON_MSG_START_PLAYBACK]\<rparr>
      else s)"

definition audio_playback_stop :: "module_state \<Rightarrow> module_state" where
  "audio_playback_stop s =
     (if \<not> audio_playback_is_enabled s then s
      else let s1 = audio_playback_reset s
           in s1\<lparr>os_calls :=
                   os_calls s1 @ [chMBPostI (gp_mailbox s1) AUDIO_COMMON_MSG_STOP_PLAYBACK]\<rparr>)"

definition audio_playback_received_cb ::
  "audio_config \<Rightarrow> usbep_t \<Rightarrow> hw_inputs \<Rightarrow> module_state \<Rightarrow> fault + module_state" where
  "audio_playback_received_cb cfg ep hw s =
     (if \<not> b_streaming_enabled s then Inr s
      else let transaction_size = usbGetReceiveTransactionSizeX hw
           in case (if transaction_size = 0 then Inr (audio_playback_stop s)
                    else case audio_playback_update_write_offset cfg transaction_size s of
                           Inl e \<Rightarrow> Inl e
                         | Inr s1 \<Rightarrow>
                             Inr (audio_playback_start
                                   (audio_playback_update_fill_size
                                     (audio_playback_update_read_offset cfg hw s1)))) of
                Inl e \<Rightarrow> Inl e
              | Inr s2 \<Rightarrow>
                  Inr (s2\<lparr>os_calls :=
                           os_calls s2 @ [usbStartReceiveI ep (buffer_write_offset s2)
                                            (AUDIO_MAX_PACKET_SIZE cfg)]\<rparr>))"

definition audio_playback_start_streaming :: "audio_config \<Rightarrow> module_state \<Rightarrow> module_state" where
  "audio_playback_start_streaming cfg s =
     (if b_streaming_enabled s then s
      else let s1 = audio_playback_reset s;
               s2 = s1\<lparr>b_streaming_enabled := True\<rparr>
           in s2\<lparr>os_calls :=
                   os_calls s2 @ [usbStartTransmitI (AUDIO_FEEDBACK_ENDPOINT cfg) 0,
                                  usbStartReceiveI (AUDIO_PLAYBACK_ENDPOINT cfg)
                                    (buffer_write_offset s2) (AUDIO_MAX_PACKET_SIZE cfg)]\<rparr>)"

definition audio_playback_stop_streaming :: "module_state \<Rightarrow> module_state" where
  "audio_playback_stop_streaming s =
     (if \<not> b_streaming_enabled s then s
      else audio_playback_stop (s\<lparr>b_streaming_enabled := False\<rparr>))"

section \<open>Sequences of calls\<close>

text \<open>
  The entry points of the module, and one action of the environment: between two calls the
  USB peripheral may store received bytes into the buffer (\<open>Usb_store off bytes\<close>; a store
  that would not fit into the array does not happen).
\<close>

datatype api_call =
  Init mailbox_ptr bool
| Set_sample_rate uint32_t
| Start_streaming
| Stop_streaming
| Received_cb usbep_t hw_inputs
| Usb_store nat "uint8_t list"

definition usb_store :: "nat \<Rightarrow> uint8_t list \<Rightarrow> module_state \<Rightarrow> module_state" where
  "usb_store off bytes s =
     (if off + length bytes \<le> length (buffer s)
      then s\<lparr>buffer := take off (buffer s) @ bytes @ drop (off + length bytes) (buffer s)\<rparr>
      else s)"

fun step :: "audio_config \<Rightarrow> api_call \<Rightarrow> module_state \<Rightarrow> fault + module_state" where
  "step cfg (Init p_mailbox streaming) s = Inr (audio_playback_init p_mailbox streaming s)"
| "step cfg (Set_sample_rate hz) s = Inr (audio_playback_set_sample_rate cfg hz s)"
| "step cfg Start_streaming s = Inr (audio_playback_start_streaming cfg s)"
| "step cfg Stop_streaming s = Inr (audio_playback_stop_streaming s)"
| "step cfg (Received_cb ep hw) s = audio_playback_received_cb cfg ep hw s"
| "step cfg (Usb_store off bytes) s = Inr (usb_store off bytes s)"

text \<open>A failed assertion halts the system: the run ends with the fault.\<close>

fun run :: "audio_config \<Rightarrow> api_call list \<Rightarrow> module_state \<Rightarrow> fault + module_state" where
  "run cfg [] s = Inr s"
| "run cfg (c # cs) s = (case step cfg c s of Inl e \<Rightarrow> Inl e | Inr s' \<Rightarrow> run cfg cs s')"

text \<open>
  The storage of the buffer has the declared number of bytes,
  \<^verbatim>\<open>AUDIO_MAX_BUFFER_SIZE + AUDIO_MAX_PACKET_SIZE\<close>.
\<close>

definition buffer_allocated :: "audio_config \<Rightarrow> module_state \<Rightarrow> bool" where
  "buffer_allocated cfg s = (length (buffer s) = unat (ARRAY_LENGTH_buffer cfg))"

text \<open>
  The word swap is compiled in for 32-bit samples only, whose size is four bytes.
\<close>

definition sample_size_matches :: "audio_config \<Rightarrow> bool" where
  "sample_size_matches cfg = (AUDIO_RESOLUTION_BIT cfg \<noteq> 32 \<or> AUDIO_SAMPLE_SIZE cfg = 4)"

text \<open>
  The calls that end playback: the explicit stop, the re-initialisation of the module, and
  the callback for a failed (zero-length) transaction.
\<close>

fun ends_playback :: "api_call \<Rightarrow> bool" where
  "ends_playback (Init p_mailbox streaming) = True"
| "ends_playback Stop_streaming = True"
| "ends_playback (Received_cb ep hw) = (usbGetReceiveTransactionSizeX hw = 0)"
| "ends_playback (Set_sample_rate hz) = False"
| "ends_playback Start_streaming = False"
| "ends_playback (Usb_store off bytes) = False"

definition flags_consistent :: "module_state \<Rightarrow> bool" where
  "flags_consistent s = (\<not> (b_playback_enabled s \<and> \<not> b_streaming_enabled s))"

section \<open>Concrete configurations and states\<close>

text \<open>The module before any call: C zero-initialises the global and the static pointer.\<close>

definition initial_state :: "audio_config \<Rightarrow> module_state" where
  "initial_state cfg =
     \<lparr>packet_size = 0,
      buffer = replicate (unat (ARRAY_LENGTH_buffer cfg)) 0,
      buffer_size = 0,
      buffer_write_offset = 0,
      buffer_read_offset = 0,
      buffer_target_fill_size = 0,
      buffer_fill_size = 0,
      b_streaming_enabled = False,
      b_playback_enabled = False,
      gp_mailbox = 0,
      os_calls = []\<rparr>"

text \<open>
  Two channels of 16-bit samples, eight packets of buffer, sample rates up to 96 kHz
  (packets of at most 384 bytes); one packet holds the samples of a millisecond.
\<close>

definition stereo16_config :: audio_config where
  "stereo16_config =
     \<lparr>AUDIO_CHANNEL_COUNT = 2,
      AUDIO_SAMPLE_SIZE = 2,
      AUDIO_RESOLUTION_BIT = 16,
      AUDIO_BUFFER_PACKET_COUNT = 8,
      AUDIO_MAX_BUFFER_SIZE = 3072,
      AUDIO_MAX_PACKET_SIZE = 384,
      AUDIO_PLAYBACK_ENDPOINT = 1,
      AUDIO_FEEDBACK_ENDPOINT = 129,
      AUDIO_COMMON_GET_PACKET_SIZE = (\<lambda>channels hz ssize. channels * (hz div 1000) * ssize)\<rparr>"

text \<open>A session at 48 kHz after five packets of 192 bytes: playback has begun.\<close>

definition playing_state :: module_state where
  "playing_state =
     \<lparr>packet_size = 192,
      buffer = replicate 3456 0,
      buffer_size = 1536,
      buffer_write_offset = 960,
      buffer_read_offset = 0,
      buffer_target_fill_size = 864,
      buffer_fill_size = 960,
      b_streaming_enabled = True,
      b_playback_enabled = True,
      gp_mailbox = 1,
      os_calls = []\<rparr>"

definition failed_transaction :: hw_inputs where
  "failed_transaction =
     \<lparr>usbGetReceiveTransactionSizeX = 0, NDTR = 0, I2S_DRIVER_state = I2S_ACTIVE\<rparr>"

definition packet_while_idle :: hw_inputs where
  "packet_while_idle =
     \<lparr>usbGetReceiveTransactionSizeX = 192, NDTR = 0, I2S_DRIVER_state = I2S_STOP\<rparr>"

definition packet_while_draining :: hw_inputs where
  "packet_while_draining =
     \<lparr>usbGetReceiveTransactionSizeX = 192, NDTR = 242, I2S_DRIVER_state = I2S_ACTIVE\<rparr>"

text \<open>The same session with the write offset 36 bytes before the end of the buffer.\<close>

definition wrapping_state :: module_state where
  "wrapping_state = playing_state\<lparr>buffer_write_offset := 1500\<rparr>"

section \<open>What a call leaves alone\<close>

lemma update_write_offset_frame:
  assumes "audio_playback_update_write_offset cfg ts s = Inr s1"
  shows "b_streaming_enabled s1 = b_streaming_enabled s"
    and "b_playback_enabled s1 = b_playback_enabled s"
    and "os_calls s1 = os_calls s"
    and "gp_mailbox s1 = gp_mailbox s"
    and "buffer_size s1 = buffer_size s"
    and "buffer_target_fill_size s1 = buffer_target_fill_size s"
    and "packet_size s1 = packet_size s"
  using assms
  by (auto simp: audio_playback_update_write_offset_def Let_def split: if_splits sum.splits)

lemma received_cb_idle:
  "\<not> b_streaming_enabled s \<Longrightarrow> audio_playback_received_cb cfg ep hw s = Inr s"
  by (simp add: audio_playback_received_cb_def)

lemma received_cb_flags:
  assumes "audio_playback_received_cb cfg ep hw s = Inr s'"
  shows "b_streaming_enabled s' = b_streaming_enabled s"
    and "usbGetReceiveTransactionSizeX hw \<noteq> 0 \<Longrightarrow> b_playback_enabled s \<Longrightarrow> b_playback_enabled s'"
  using assms
  by (auto simp: audio_playback_received_cb_def Let_def audio_playback_stop_def
      audio_playback_start_def audio_playback_is_enabled_def audio_playback_reset_def
      audio_playback_init_def audio_playback_update_fill_size_def
      audio_playback_update_read_offset_def
      dest: update_write_offset_frame
      split: if_splits sum.splits)

lemma received_cb_failed_transaction:
  assumes "b_streaming_enabled s" "b_playback_enabled s" "usbGetReceiveTransactionSizeX hw = 0"
  shows "audio_playback_received_cb cfg ep hw s =
           Inr (s\<lparr>buffer_write_offset := 0, buffer_read_offset := 0, buffer_fill_size := 0,
                  b_playback_enabled := False,
                  os_calls := os_calls s @ [chMBPostI (gp_mailbox s) AUDIO_COMMON_MSG_STOP_PLAYBACK,
                                            usbStartReceiveI ep 0 (AUDIO_MAX_PACKET_SIZE cfg)]\<rparr>)"
  using assms
  by (simp add: audio_playback_received_cb_def audio_playback_stop_def
      audio_playback_is_enabled_def audio_playback_reset_def audio_playback_init_def Let_def)

section \<open>The mode flags along a sequence of calls\<close>

lemma step_flags_consistent:
  assumes "flags_consistent s" "step cfg c s = Inr s'"
  shows "flags_consistent s'"
proof (cases c)
  case (Received_cb ep hw)
  with assms have cb: "audio_playback_received_cb cfg ep hw s = Inr s'" by simp
  show ?thesis
  proof (cases "b_streaming_enabled s")
    case True
    with received_cb_flags(1) [OF cb] show ?thesis by (simp add: flags_consistent_def)
  next
    case False
    with cb have "s' = s" by (simp add: received_cb_idle)
    with assms(1) show ?thesis by simp
  qed
qed (use assms in \<open>auto simp: flags_consistent_def audio_playback_init_def
      audio_playback_set_sample_rate_def Let_def audio_playback_start_streaming_def
      audio_playback_reset_def audio_playback_stop_streaming_def audio_playback_stop_def
      audio_playback_is_enabled_def usb_store_def split: if_splits\<close>)

lemma run_flags_consistent:
  "flags_consistent s \<Longrightarrow> run cfg cs s = Inr s' \<Longrightarrow> flags_consistent s'"
proof (induction cs arbitrary: s)
  case Nil
  then show ?case by simp
next
  case (Cons c cs)
  from Cons.prems(2) obtain s1 where s1: "step cfg c s = Inr s1" and rest: "run cfg cs s1 = Inr s'"
    by (auto split: sum.splits)
  from step_flags_consistent [OF Cons.prems(1) s1] rest show ?case by (rule Cons.IH)
qed

lemma step_keeps_playing:
  assumes "b_streaming_enabled s" "b_playback_enabled s" "\<not> ends_playback c"
    "step cfg c s = Inr s'"
  shows "b_streaming_enabled s' \<and> b_playback_enabled s'"
proof (cases c)
  case (Received_cb ep hw)
  with assms have cb: "audio_playback_received_cb cfg ep hw s = Inr s'"
    and ts: "usbGetReceiveTransactionSizeX hw \<noteq> 0" by simp_all
  from received_cb_flags(1) [OF cb] received_cb_flags(2) [OF cb ts] assms(1,2)
  show ?thesis by simp
qed (use assms in \<open>auto simp: audio_playback_set_sample_rate_def Let_def
      audio_playback_start_streaming_def usb_store_def\<close>)

section \<open>The accesses to the buffer stay within the array\<close>

lemma store32_length: "store32 buf p w = Inr buf' \<Longrightarrow> length buf' = length buf"
  by (auto simp: store32_def split: if_splits)

lemma swap_loop_in_bounds:
  "p + 4 * n \<le> length buf \<Longrightarrow> \<exists>buf'. swap_loop n p buf = Inr buf' \<and> length buf' = length buf"
proof (induction n arbitrary: p buf)
  case 0
  then show ?case by simp
next
  case (Suc n)
  from Suc.prems have here: "p + 4 \<le> length buf" by simp
  then obtain w where w: "load32 buf p = Inr w" by (simp add: load32_def)
  from here obtain buf1 where buf1: "store32 buf p (SWAP_HALF_WORDS w) = Inr buf1"
    by (simp add: store32_def)
  from store32_length [OF buf1] Suc.prems have "(p + 4) + 4 * n \<le> length buf1" by simp
  from Suc.IH [OF this] w buf1 store32_length [OF buf1] show ?case by simp
qed

text \<open>
  The forward copy moves the original bytes when the source does not lie below the
  destination, and leaves every other byte alone.
\<close>

lemma memcpy_bytes_forward:
  "src + n \<le> length buf \<Longrightarrow> dst \<le> src \<Longrightarrow>
   \<exists>buf'. memcpy_bytes dst src n buf = Inr buf' \<and> length buf' = length buf
     \<and> (\<forall>i < n. buf' ! (dst + i) = buf ! (src + i))
     \<and> (\<forall>j < length buf. j < dst \<or> dst + n \<le> j \<longrightarrow> buf' ! j = buf ! j)"
proof (induction n arbitrary: dst src buf)
  case 0
  then show ?case by simp
next
  case (Suc n)
  let ?buf1 = "buf[dst := buf ! src]"
  from Suc.prems have "Suc src + n \<le> length ?buf1" "Suc dst \<le> Suc src" by simp_all
  from Suc.IH [OF this] obtain buf' where
    run: "memcpy_bytes (Suc dst) (Suc src) n ?buf1 = Inr buf'"
    and len: "length buf' = length ?buf1"
    and copied: "\<forall>i < n. buf' ! (Suc dst + i) = ?buf1 ! (Suc src + i)"
    and kept: "\<forall>j < length ?buf1. j < Suc dst \<or> Suc dst + n \<le> j \<longrightarrow> buf' ! j = ?buf1 ! j"
    by blast
  from Suc.prems have inb: "src < length buf" "dst < length buf" by simp_all
  have "buf' ! (dst + i) = buf ! (src + i)" if "i < Suc n" for i
  proof (cases i)
    case 0
    from kept inb have "buf' ! dst = ?buf1 ! dst" by simp
    with 0 inb show ?thesis by simp
  next
    case (Suc k)
    with that have "k < n" by simp
    with copied have "buf' ! (Suc dst + k) = ?buf1 ! (Suc src + k)" by simp
    moreover from Suc.prems have "Suc src + k \<noteq> dst" by simp
    ultimately show ?thesis using Suc by simp
  qed
  moreover have "buf' ! j = buf ! j" if "j < length buf" "j < dst \<or> dst + Suc n \<le> j" for j
  proof -
    from that kept have "buf' ! j = ?buf1 ! j" by auto
    moreover from that have "j \<noteq> dst" by auto
    ultimately show ?thesis by simp
  qed
  ultimately show ?case using run len inb by simp
qed

text \<open>Below the length of the array the sum of offset and size does not wrap around.\<close>

lemma no_wrap_below_array_length:
  fixes wo ts al :: size_t
  assumes "unat wo + unat ts < unat al"
  shows "unat (wo + ts) = unat wo + unat ts" and "wo + ts < al"
proof -
  have "unat al < 2 ^ 32" using unsigned_less [of al] by simp
  with assms have "unat wo + unat ts < 2 ^ LENGTH(32)" by simp
  then show "unat (wo + ts) = unat wo + unat ts" by (rule unat_add_lem [THEN iffD1])
  with assms show "wo + ts < al" by (simp add: word_less_nat_alt)
qed

lemma swap_received_words_in_bounds:
  assumes "sample_size_matches cfg"
    and "unat (buffer_write_offset s) + unat ts \<le> length (buffer s)"
  shows "\<exists>buf'. swap_received_words cfg ts s = Inr buf' \<and> length buf' = length (buffer s)"
proof (cases "AUDIO_RESOLUTION_BIT cfg = 32")
  case True
  with assms(1) have four: "AUDIO_SAMPLE_SIZE cfg = 4" by (simp add: sample_size_matches_def)
  have "4 * unat (ts div 4) \<le> unat ts" by (simp add: unat_div)
  with assms(2) have "unat (buffer_write_offset s) + 4 * unat (ts div 4) \<le> length (buffer s)"
    by simp
  from swap_loop_in_bounds [OF this] True four show ?thesis
    by (simp add: swap_received_words_def)
next
  case False
  then show ?thesis by (simp add: swap_received_words_def)
qed

lemma copy_excess_in_bounds:
  assumes "unat new \<le> length buf"
  shows "\<exists>buf'. copy_excess new bsize buf = Inr buf' \<and> length buf' = length buf
     \<and> (\<forall>i < unat new - unat bsize. buf' ! i = buf ! (unat bsize + i))
     \<and> (\<forall>j < length buf. unat new - unat bsize \<le> j \<longrightarrow> buf' ! j = buf ! j)"
proof (cases "bsize < new")
  case True
  then have ex: "unat (new - bsize) = unat new - unat bsize"
    by (simp add: unat_sub less_imp_le)
  from True have "unat bsize < unat new" by (simp add: word_less_nat_alt)
  with assms ex have "unat bsize + unat (new - bsize) \<le> length buf" by simp
  from memcpy_bytes_forward [OF this, of 0] True ex show ?thesis
    by (simp add: copy_excess_def)
next
  case False
  then have "unat new - unat bsize = 0" by (simp add: word_less_nat_alt)
  with False show ?thesis by (simp add: copy_excess_def)
qed

lemma update_write_offset_succeeds:
  assumes "sample_size_matches cfg" and "buffer_allocated cfg s"
    and "unat (buffer_write_offset s) + unat ts < length (buffer s)"
  shows "\<exists>buf'. audio_playback_update_write_offset cfg ts s =
            Inr (s\<lparr>buffer := buf',
                   buffer_write_offset :=
                     wrap_unsigned (buffer_write_offset s + ts) (buffer_size s)\<rparr>)
          \<and> length buf' = length (buffer s)"
proof -
  let ?new = "buffer_write_offset s + ts"
  from assms(2,3) have lt: "unat (buffer_write_offset s) + unat ts < unat (ARRAY_LENGTH_buffer cfg)"
    by (simp add: buffer_allocated_def)
  note nw = no_wrap_below_array_length [OF lt]
  from assms(3) have "unat (buffer_write_offset s) + unat ts \<le> length (buffer s)" by simp
  from swap_received_words_in_bounds [OF assms(1) this] obtain swapped where
    sw: "swap_received_words cfg ts s = Inr swapped" and swl: "length swapped = length (buffer s)"
    by blast
  from nw(1) assms(3) swl have "unat ?new \<le> length swapped" by simp
  from copy_excess_in_bounds [OF this, of "buffer_size s"] obtain copied where
    cp: "copy_excess ?new (buffer_size s) swapped = Inr copied"
    and cpl: "length copied = length swapped" by blast
  from nw(2) sw cp swl cpl show ?thesis
    by (intro exI [of _ copied]) (simp add: audio_playback_update_write_offset_def)
qed

section \<open>The fill size\<close>

lemma subtract_circular_unsigned_bound:
  assumes "b < m"
  shows "subtract_circular_unsigned a b m < m"
proof -
  let ?k = "(uint a - uint b) mod uint m"
  have "0 \<le> uint b" by simp
  moreover from assms have "uint b < uint m" by (simp add: word_less_def)
  ultimately have pos: "0 < uint m" by linarith
  then have k: "0 \<le> ?k" "?k < uint m" by simp_all
  have "uint m < 2 ^ LENGTH(32)" by (rule uint_lt2p)
  with k have "?k mod 2 ^ LENGTH(32) = ?k" by (simp only: mod_pos_pos_trivial)
  then have "uint (word_of_int ?k :: size_t) = ?k" by (simp only: uint_word_of_int)
  with k(2) show ?thesis by (simp add: subtract_circular_unsigned_def word_less_def)
qed

lemma subtract_circular_unsigned_same: "subtract_circular_unsigned a a m = 0"
  by (simp add: subtract_circular_unsigned_def)

section \<open>A packet that arrives while streaming\<close>

lemma posted_append: "posted (xs @ ys) = posted xs @ posted ys"
  by (induction xs rule: posted.induct) simp_all

lemma received_cb_packet:
  assumes "sample_size_matches cfg" and "buffer_allocated cfg s"
    and "b_streaming_enabled s"
    and "usbGetReceiveTransactionSizeX hw \<noteq> 0"
    and "unat (buffer_write_offset s) + unat (usbGetReceiveTransactionSizeX hw) < length (buffer s)"
  shows "\<exists>buf'. length buf' = length (buffer s)
     \<and> audio_playback_received_cb cfg ep hw s =
         Inr (let s1 = s\<lparr>buffer := buf',
                         buffer_write_offset :=
                           wrap_unsigned (buffer_write_offset s + usbGetReceiveTransactionSizeX hw)
                             (buffer_size s)\<rparr>;
                  s2 = audio_playback_start
                         (audio_playback_update_fill_size (audio_playback_update_read_offset cfg hw s1))
              in s2\<lparr>os_calls := os_calls s2 @ [usbStartReceiveI ep (buffer_write_offset s2)
                                                 (AUDIO_MAX_PACKET_SIZE cfg)]\<rparr>)"
proof -
  from update_write_offset_succeeds [OF assms(1,2,5)] obtain buf' where
    "audio_playback_update_write_offset cfg (usbGetReceiveTransactionSizeX hw) s =
       Inr (s\<lparr>buffer := buf',
               buffer_write_offset :=
                 wrap_unsigned (buffer_write_offset s + usbGetReceiveTransactionSizeX hw)
                   (buffer_size s)\<rparr>)"
    and "length buf' = length (buffer s)" by blast
  with assms(3,4) show ?thesis
    by (intro exI [of _ buf']) (simp add: audio_playback_received_cb_def Let_def)
qed

text \<open>
  One packet of 192 bytes while buffering, in a buffer of 1536 bytes with a target of 864
  bytes and the I2S driver not active: the fill size is the new write offset, and playback
  begins with the packet that takes it from 768 to 960.
\<close>

lemma buffering_packet_192:
  assumes "sample_size_matches cfg" and "buffer_allocated cfg s"
    and "1728 \<le> length (buffer s)"
    and "buffer_size s = 1536" and "buffer_target_fill_size s = 864"
    and "b_streaming_enabled s" and "\<not> b_playback_enabled s"
    and "usbGetReceiveTransactionSizeX hw = 192" and "I2S_DRIVER_state hw \<noteq> I2S_ACTIVE"
    and "buffer_write_offset s = w" and "w \<in> {0, 192, 384, 576, 768}"
  shows "\<exists>s'. audio_playback_received_cb cfg ep hw s = Inr s'
     \<and> buffer_allocated cfg s' \<and> length (buffer s') = length (buffer s)
     \<and> buffer_size s' = 1536 \<and> buffer_target_fill_size s' = 864
     \<and> b_streaming_enabled s'
     \<and> buffer_write_offset s' = w + 192 \<and> buffer_read_offset s' = 0
     \<and> buffer_fill_size s' = w + 192
     \<and> b_playback_enabled s' = (w = 768)
     \<and> posted (os_calls s') =
         posted (os_calls s) @ (if w = 768 then [AUDIO_COMMON_MSG_START_PLAYBACK] else [])"
proof -
  from assms(3,8,10,11) have fits:
    "unat (buffer_write_offset s) + unat (usbGetReceiveTransactionSizeX hw) < length (buffer s)"
    by auto
  from assms(8) have nz: "usbGetReceiveTransactionSizeX hw \<noteq> 0" by simp
  from received_cb_packet [OF assms(1,2,6) nz fits, of ep] obtain buf' where
    len: "length buf' = length (buffer s)"
    and run: "audio_playback_received_cb cfg ep hw s =
         Inr (let s1 = s\<lparr>buffer := buf',
                         buffer_write_offset :=
                           wrap_unsigned (buffer_write_offset s + usbGetReceiveTransactionSizeX hw)
                             (buffer_size s)\<rparr>;
                  s2 = audio_playback_start
                         (audio_playback_update_fill_size (audio_playback_update_read_offset cfg hw s1))
              in s2\<lparr>os_calls := os_calls s2 @ [usbStartReceiveI ep (buffer_write_offset s2)
                                                 (AUDIO_MAX_PACKET_SIZE cfg)]\<rparr>)"
    by blast
  from assms(11) have "w = 0 \<or> w = 192 \<or> w = 384 \<or> w = 576 \<or> w = 768" by simp
  then show ?thesis
    using run len assms(2,4-10)
    by (elim disjE)
      (simp_all add: Let_def wrap_unsigned_def audio_playback_update_read_offset_def
        audio_playback_update_fill_size_def subtract_circular_unsigned_def
        audio_playback_start_def audio_playback_is_enabled_def buffer_allocated_def
        posted_append)
qed

section \<open>The claims about the state machine\<close>

text \<open>
  Claim C1, as the code has it. When the callback finds a failed transaction (size 0) while
  streaming and playback are both enabled, it returns with playback disabled, the offsets
  and the fill size reset to zero, and exactly one stop-playback message posted to the
  mailbox. Streaming stays enabled: the reset keeps the streaming flag, and the callback
  arms the next reception at offset 0.
\<close>

theorem failed_transaction_stops_playback_only:
  assumes "b_streaming_enabled s" "b_playback_enabled s" "usbGetReceiveTransactionSizeX hw = 0"
  shows "\<exists>s'. audio_playback_received_cb cfg ep hw s = Inr s'
           \<and> \<not> b_playback_enabled s' \<and> b_streaming_enabled s'
           \<and> buffer_write_offset s' = 0 \<and> buffer_read_offset s' = 0 \<and> buffer_fill_size s' = 0
           \<and> os_calls s' = os_calls s @ [chMBPostI (gp_mailbox s) AUDIO_COMMON_MSG_STOP_PLAYBACK,
                                          usbStartReceiveI ep 0 (AUDIO_MAX_PACKET_SIZE cfg)]"
  using assms by (simp add: received_cb_failed_transaction)

theorem failed_transaction_stops_playback_only_witness:
  "b_streaming_enabled playing_state \<and> b_playback_enabled playing_state
   \<and> usbGetReceiveTransactionSizeX failed_transaction = 0
   \<and> (\<exists>s'. audio_playback_received_cb stereo16_config 1 failed_transaction playing_state = Inr s'
           \<and> \<not> b_playback_enabled s' \<and> b_streaming_enabled s'
           \<and> buffer_write_offset s' = 0 \<and> buffer_read_offset s' = 0 \<and> buffer_fill_size s' = 0
           \<and> os_calls s' = [chMBPostI 1 AUDIO_COMMON_MSG_STOP_PLAYBACK, usbStartReceiveI 1 0 384])"
  using failed_transaction_stops_playback_only
    [where s = playing_state and hw = failed_transaction and cfg = stereo16_config and ep = 1]
  by (simp add: playing_state_def failed_transaction_def stereo16_config_def)

text \<open>
  Claim C1 as stated fails: after a failed transaction in the playing session at 48 kHz,
  streaming is still enabled.
\<close>

theorem failed_transaction_keeps_streaming:
  "b_streaming_enabled playing_state \<and> b_playback_enabled playing_state
   \<and> usbGetReceiveTransactionSizeX failed_transaction = 0
   \<and> audio_playback_received_cb stereo16_config 1 failed_transaction playing_state =
       Inr (playing_state\<lparr>buffer_write_offset := 0, buffer_read_offset := 0,
              buffer_fill_size := 0, b_playback_enabled := False,
              os_calls := [chMBPostI 1 AUDIO_COMMON_MSG_STOP_PLAYBACK, usbStartReceiveI 1 0 384]\<rparr>)
   \<and> b_streaming_enabled
        (playing_state\<lparr>buffer_write_offset := 0, buffer_read_offset := 0,
           buffer_fill_size := 0, b_playback_enabled := False,
           os_calls := [chMBPostI 1 AUDIO_COMMON_MSG_STOP_PLAYBACK, usbStartReceiveI 1 0 384]\<rparr>)"
  by (simp add: playing_state_def failed_transaction_def stereo16_config_def
      audio_playback_received_cb_def audio_playback_stop_def audio_playback_is_enabled_def
      audio_playback_reset_def audio_playback_init_def Let_def)

text \<open>
  Claim C2. Within a streaming session, once playback is enabled it stays enabled along
  every sequence of calls that holds no explicit stop (\<^verbatim>\<open>audio_playback_stop_streaming\<close>,
  or the reset by \<^verbatim>\<open>audio_playback_init\<close>) and no failed transaction: every packet
  callback with a size other than zero that returns keeps it, whatever the peripherals
  report and whatever the fill size becomes. So playback is disabled only by a stop or by a
  zero-length transaction.
\<close>

theorem playback_latched_within_session:
  assumes "b_streaming_enabled s" and "b_playback_enabled s"
    and "\<forall>c \<in> set cs. \<not> ends_playback c"
    and "run cfg cs s = Inr s'"
  shows "b_streaming_enabled s' \<and> b_playback_enabled s'"
  using assms
proof (induction cs arbitrary: s)
  case Nil
  then show ?case by simp
next
  case (Cons c cs)
  from Cons.prems(4) obtain s1 where s1: "step cfg c s = Inr s1" and rest: "run cfg cs s1 = Inr s'"
    by (auto split: sum.splits)
  from Cons.prems(3) have c: "\<not> ends_playback c" and cs: "\<forall>c \<in> set cs. \<not> ends_playback c"
    by simp_all
  from step_keeps_playing [OF Cons.prems(1,2) c s1]
  have "b_streaming_enabled s1" "b_playback_enabled s1" by simp_all
  then show ?case using cs rest by (rule Cons.IH)
qed

text \<open>
  In the witness the consumer has drained the buffer down to 100 bytes, below the target of
  864 bytes, and playback stays enabled.
\<close>

theorem playback_latched_within_session_witness:
  "\<exists>s'. run stereo16_config
           [Received_cb 1 packet_while_draining, Usb_store 1152 [1, 2, 3, 4],
            Set_sample_rate 48000, Start_streaming] playing_state = Inr s'
       \<and> buffer_fill_size s' = 100 \<and> buffer_target_fill_size s' = 864
       \<and> b_streaming_enabled s' \<and> b_playback_enabled s'"
proof -
  let ?cs = "[Received_cb 1 packet_while_draining, Usb_store 1152 [1, 2, 3, 4],
              Set_sample_rate 48000, Start_streaming]"
  have "\<exists>s'. run stereo16_config ?cs playing_state = Inr s'
          \<and> buffer_fill_size s' = 100 \<and> buffer_target_fill_size s' = 864"
    by (simp add: playing_state_def stereo16_config_def packet_while_draining_def
        audio_playback_received_cb_def audio_playback_update_write_offset_def
        swap_received_words_def copy_excess_def ARRAY_LENGTH_buffer_def wrap_unsigned_def
        audio_playback_update_read_offset_def audio_playback_update_fill_size_def
        subtract_circular_unsigned_def audio_playback_start_def audio_playback_is_enabled_def
        audio_playback_set_sample_rate_def AUDIO_COMMON_GET_BUFFER_SIZE_def
        audio_playback_start_streaming_def usb_store_def Let_def)
  then obtain s' where r: "run stereo16_config ?cs playing_state = Inr s'"
    and f: "buffer_fill_size s' = 100" "buffer_target_fill_size s' = 864" by blast
  have h1: "b_streaming_enabled playing_state" and h2: "b_playback_enabled playing_state"
    by (simp_all add: playing_state_def)
  have h3: "\<forall>c \<in> set ?cs. \<not> ends_playback c" by (simp add: packet_while_draining_def)
  from playback_latched_within_session [OF h1 h2 h3 r] r f show ?thesis by blast
qed

section \<open>The claims about buffering and the circular buffer\<close>

text \<open>
  Claim C3. Let the packet size for the sample rate be 192 bytes and the buffer hold 8
  packets, and let the array hold the buffer and one more packet. Setting the sample rate
  and starting a session from an idle state gives a buffer size of 1536 and a target fill
  size of 864. With the I2S driver not active (read offset 0), four callbacks for packets
  of 192 bytes return with a fill size of 768, playback still disabled and no message
  posted; the fifth returns with a fill size of 960, playback enabled and exactly one
  start-playback message posted.
\<close>

theorem buffering_until_fifth_packet:
  assumes "sample_size_matches cfg"
    and "AUDIO_COMMON_GET_PACKET_SIZE cfg (AUDIO_CHANNEL_COUNT cfg) hz (AUDIO_SAMPLE_SIZE cfg) = 192"
    and "AUDIO_BUFFER_PACKET_COUNT cfg = 8"
    and "buffer_allocated cfg s0" and "1728 \<le> length (buffer s0)"
    and "\<not> b_streaming_enabled s0"
    and "length hws = 4"
    and "\<forall>hw \<in> set (hws @ [hw5]).
           usbGetReceiveTransactionSizeX hw = 192 \<and> I2S_DRIVER_state hw \<noteq> I2S_ACTIVE"
  shows "\<exists>s1 s4 s5.
           s1 = audio_playback_start_streaming cfg (audio_playback_set_sample_rate cfg hz s0)
         \<and> packet_size s1 = 192 \<and> buffer_size s1 = 1536 \<and> buffer_target_fill_size s1 = 864
         \<and> run cfg (map (Received_cb ep) hws) s1 = Inr s4
         \<and> buffer_fill_size s4 = 768 \<and> \<not> b_playback_enabled s4
         \<and> posted (os_calls s4) = posted (os_calls s0)
         \<and> audio_playback_received_cb cfg ep hw5 s4 = Inr s5
         \<and> buffer_fill_size s5 = 960 \<and> b_playback_enabled s5
         \<and> posted (os_calls s5) = posted (os_calls s0) @ [AUDIO_COMMON_MSG_START_PLAYBACK]"
proof -
  let ?s1 = "audio_playback_start_streaming cfg (audio_playback_set_sample_rate cfg hz s0)"
  from assms(2,3,4,5,6) have s1:
    "packet_size ?s1 = 192" "buffer_size ?s1 = 1536" "buffer_target_fill_size ?s1 = 864"
    "buffer_allocated cfg ?s1" "1728 \<le> length (buffer ?s1)"
    "b_streaming_enabled ?s1" "\<not> b_playback_enabled ?s1" "buffer_write_offset ?s1 = 0"
    "posted (os_calls ?s1) = posted (os_calls s0)"
    by (simp_all add: audio_playback_start_streaming_def audio_playback_set_sample_rate_def
        AUDIO_COMMON_GET_BUFFER_SIZE_def audio_playback_reset_def audio_playback_init_def
        buffer_allocated_def Let_def posted_append)
  from assms(7) obtain h1 h2 h3 h4 where hws: "hws = [h1, h2, h3, h4]"
    by (auto simp: eval_nat_numeral length_Suc_conv)
  with assms(8) have h:
    "usbGetReceiveTransactionSizeX h1 = 192" "I2S_DRIVER_state h1 \<noteq> I2S_ACTIVE"
    "usbGetReceiveTransactionSizeX h2 = 192" "I2S_DRIVER_state h2 \<noteq> I2S_ACTIVE"
    "usbGetReceiveTransactionSizeX h3 = 192" "I2S_DRIVER_state h3 \<noteq> I2S_ACTIVE"
    "usbGetReceiveTransactionSizeX h4 = 192" "I2S_DRIVER_state h4 \<noteq> I2S_ACTIVE"
    "usbGetReceiveTransactionSizeX hw5 = 192" "I2S_DRIVER_state hw5 \<noteq> I2S_ACTIVE"
    by simp_all
  from buffering_packet_192 [OF assms(1) s1(4,5,2,3,6,7) h(1,2) s1(8), of ep]
  obtain a where a: "audio_playback_received_cb cfg ep h1 ?s1 = Inr a"
    "buffer_allocated cfg a" "1728 \<le> length (buffer a)" "buffer_size a = 1536"
    "buffer_target_fill_size a = 864" "b_streaming_enabled a" "\<not> b_playback_enabled a"
    "buffer_write_offset a = 192" "posted (os_calls a) = posted (os_calls s0)"
    using s1(5,9) by auto
  from buffering_packet_192 [OF assms(1) a(2,3,4,5,6,7) h(3,4) a(8), of ep]
  obtain b where b: "audio_playback_received_cb cfg ep h2 a = Inr b"
    "buffer_allocated cfg b" "1728 \<le> length (buffer b)" "buffer_size b = 1536"
    "buffer_target_fill_size b = 864" "b_streaming_enabled b" "\<not> b_playback_enabled b"
    "buffer_write_offset b = 384" "posted (os_calls b) = posted (os_calls s0)"
    using a(3,9) by auto
  from buffering_packet_192 [OF assms(1) b(2,3,4,5,6,7) h(5,6) b(8), of ep]
  obtain c where c: "audio_playback_received_cb cfg ep h3 b = Inr c"
    "buffer_allocated cfg c" "1728 \<le> length (buffer c)" "buffer_size c = 1536"
    "buffer_target_fill_size c = 864" "b_streaming_enabled c" "\<not> b_playback_enabled c"
    "buffer_write_offset c = 576" "posted (os_calls c) = posted (os_calls s0)"
    using b(3,9) by auto
  from buffering_packet_192 [OF assms(1) c(2,3,4,5,6,7) h(7,8) c(8), of ep]
  obtain d where d: "audio_playback_received_cb cfg ep h4 c = Inr d"
    "buffer_allocated cfg d" "1728 \<le> length (buffer d)" "buffer_size d = 1536"
    "buffer_target_fill_size d = 864" "b_streaming_enabled d" "\<not> b_playback_enabled d"
    "buffer_write_offset d = 768" "buffer_fill_size d = 768"
    "posted (os_calls d) = posted (os_calls s0)"
    using c(3,9) by auto
  from buffering_packet_192 [OF assms(1) d(2,3,4,5,6,7) h(9,10) d(8), of ep]
  obtain e where e: "audio_playback_received_cb cfg ep hw5 d = Inr e"
    "buffer_fill_size e = 960" "b_playback_enabled e"
    "posted (os_calls e) = posted (os_calls s0) @ [AUDIO_COMMON_MSG_START_PLAYBACK]"
    using d(10) by auto
  from a(1) b(1) c(1) d(1) hws have "run cfg (map (Received_cb ep) hws) ?s1 = Inr d" by simp
  with s1(1,2,3) d(9,7,10) e show ?thesis by blast
qed

theorem buffering_until_fifth_packet_witness:
  "\<exists>s1 s4 s5.
      s1 = audio_playback_start_streaming stereo16_config
             (audio_playback_set_sample_rate stereo16_config 48000 (initial_state stereo16_config))
    \<and> packet_size s1 = 192 \<and> buffer_size s1 = 1536 \<and> buffer_target_fill_size s1 = 864
    \<and> run stereo16_config
        [Received_cb 1 packet_while_idle, Received_cb 1 packet_while_idle,
         Received_cb 1 packet_while_idle, Received_cb 1 packet_while_idle] s1 = Inr s4
    \<and> buffer_fill_size s4 = 768 \<and> \<not> b_playback_enabled s4 \<and> posted (os_calls s4) = []
    \<and> audio_playback_received_cb stereo16_config 1 packet_while_idle s4 = Inr s5
    \<and> buffer_fill_size s5 = 960 \<and> b_playback_enabled s5
    \<and> posted (os_calls s5) = [AUDIO_COMMON_MSG_START_PLAYBACK]"
proof -
  have h1: "sample_size_matches stereo16_config"
    by (simp add: sample_size_matches_def stereo16_config_def)
  have h2: "AUDIO_COMMON_GET_PACKET_SIZE stereo16_config (AUDIO_CHANNEL_COUNT stereo16_config)
              48000 (AUDIO_SAMPLE_SIZE stereo16_config) = 192"
    by (simp add: stereo16_config_def)
  have h3: "AUDIO_BUFFER_PACKET_COUNT stereo16_config = 8" by (simp add: stereo16_config_def)
  have h4: "buffer_allocated stereo16_config (initial_state stereo16_config)"
    by (simp add: buffer_allocated_def initial_state_def)
  have h5: "1728 \<le> length (buffer (initial_state stereo16_config))"
    by (simp add: initial_state_def ARRAY_LENGTH_buffer_def stereo16_config_def)
  have h6: "\<not> b_streaming_enabled (initial_state stereo16_config)"
    by (simp add: initial_state_def)
  have h7: "length [packet_while_idle, packet_while_idle, packet_while_idle, packet_while_idle] = 4"
    by simp
  have h8: "\<forall>hw \<in> set ([packet_while_idle, packet_while_idle, packet_while_idle, packet_while_idle]
                          @ [packet_while_idle]).
              usbGetReceiveTransactionSizeX hw = 192 \<and> I2S_DRIVER_state hw \<noteq> I2S_ACTIVE"
    by (simp add: packet_while_idle_def)
  from buffering_until_fifth_packet [OF h1 h2 h3 h4 h5 h6 h7 h8, of 1] show ?thesis
    by (simp add: initial_state_def)
qed

text \<open>
  Claim C4. Let the write offset plus the transaction size be below the length of the
  array and above the buffer size. Then \<^verbatim>\<open>audio_playback_update_write_offset\<close> returns,
  and relative to the buffer as the word swap left it, exactly the excess bytes (new offset
  minus buffer size) have been copied from behind the buffer size to the start of the
  buffer, every other byte is as before, and the write offset is the new offset modulo the
  buffer size (for a buffer size other than zero). With write offset 1500, buffer size 1536
  and 192 bytes received, 156 bytes are copied and the write offset becomes 156.
\<close>

theorem write_copies_excess_to_start:
  assumes "sample_size_matches cfg" and "buffer_allocated cfg s"
    and "unat (buffer_write_offset s) + unat ts < length (buffer s)"
    and "unat (buffer_size s) < unat (buffer_write_offset s) + unat ts"
  shows "\<exists>swapped s'.
           swap_received_words cfg ts s = Inr swapped
         \<and> audio_playback_update_write_offset cfg ts s = Inr s'
         \<and> length (buffer s') = length (buffer s)
         \<and> (\<forall>i < unat (buffer_write_offset s) + unat ts - unat (buffer_size s).
               buffer s' ! i = swapped ! (unat (buffer_size s) + i))
         \<and> (\<forall>j < length (buffer s).
               unat (buffer_write_offset s) + unat ts - unat (buffer_size s) \<le> j
               \<longrightarrow> buffer s' ! j = swapped ! j)
         \<and> (buffer_size s \<noteq> 0 \<longrightarrow>
               unat (buffer_write_offset s') =
                 (unat (buffer_write_offset s) + unat ts) mod unat (buffer_size s))"
proof -
  let ?new = "buffer_write_offset s + ts"
  from assms(2,3) have lt: "unat (buffer_write_offset s) + unat ts < unat (ARRAY_LENGTH_buffer cfg)"
    by (simp add: buffer_allocated_def)
  note nw = no_wrap_below_array_length [OF lt]
  from assms(3) have "unat (buffer_write_offset s) + unat ts \<le> length (buffer s)" by simp
  from swap_received_words_in_bounds [OF assms(1) this] obtain swapped where
    sw: "swap_received_words cfg ts s = Inr swapped" and swl: "length swapped = length (buffer s)"
    by blast
  from nw(1) assms(3) swl have "unat ?new \<le> length swapped" by simp
  from copy_excess_in_bounds [OF this, of "buffer_size s"] obtain copied where
    cp: "copy_excess ?new (buffer_size s) swapped = Inr copied"
    and cpl: "length copied = length swapped"
    and moved: "\<forall>i < unat ?new - unat (buffer_size s). copied ! i = swapped ! (unat (buffer_size s) + i)"
    and kept: "\<forall>j < length swapped. unat ?new - unat (buffer_size s) \<le> j \<longrightarrow> copied ! j = swapped ! j"
    by blast
  let ?s' = "s\<lparr>buffer := copied, buffer_write_offset := wrap_unsigned ?new (buffer_size s)\<rparr>"
  from nw(2) sw cp have run: "audio_playback_update_write_offset cfg ts s = Inr ?s'"
    by (simp add: audio_playback_update_write_offset_def)
  have off: "unat (buffer_write_offset ?s') =
      (unat (buffer_write_offset s) + unat ts) mod unat (buffer_size s)"
    using nw(1) by (simp add: wrap_unsigned_def unat_mod)
  from sw run swl cpl moved kept nw(1) off show ?thesis
    by (intro exI [of _ swapped] exI [of _ ?s']) simp
qed

theorem write_copies_excess_to_start_witness:
  "sample_size_matches stereo16_config \<and> buffer_allocated stereo16_config wrapping_state
   \<and> buffer_write_offset wrapping_state = 1500 \<and> buffer_size wrapping_state = 1536
   \<and> (\<exists>swapped s'.
         swap_received_words stereo16_config 192 wrapping_state = Inr swapped
       \<and> audio_playback_update_write_offset stereo16_config 192 wrapping_state = Inr s'
       \<and> (\<forall>i < 156. buffer s' ! i = swapped ! (1536 + i))
       \<and> (\<forall>j < 3456. 156 \<le> j \<longrightarrow> buffer s' ! j = swapped ! j)
       \<and> buffer_write_offset s' = 156)"
proof -
  have h1: "sample_size_matches stereo16_config"
    by (simp add: sample_size_matches_def stereo16_config_def)
  have h2: "buffer_allocated stereo16_config wrapping_state"
    by (simp add: buffer_allocated_def wrapping_state_def playing_state_def
        ARRAY_LENGTH_buffer_def stereo16_config_def)
  have h3: "unat (buffer_write_offset wrapping_state) + unat (192 :: size_t)
      < length (buffer wrapping_state)"
    by (simp add: wrapping_state_def playing_state_def)
  have h4: "unat (buffer_size wrapping_state)
      < unat (buffer_write_offset wrapping_state) + unat (192 :: size_t)"
    by (simp add: wrapping_state_def playing_state_def)
  have vals: "buffer_write_offset wrapping_state = 1500" "buffer_size wrapping_state = 1536"
    "length (buffer wrapping_state) = 3456"
    by (simp_all add: wrapping_state_def playing_state_def)
  have ar: "unat (1500 :: size_t) + unat (192 :: size_t) - unat (1536 :: size_t) = 156"
    "(unat (1500 :: size_t) + unat (192 :: size_t)) mod unat (1536 :: size_t) = 156"
    by simp_all
  from write_copies_excess_to_start [OF h1 h2 h3 h4] obtain swapped s' where
    r: "swap_received_words stereo16_config 192 wrapping_state = Inr swapped"
      "audio_playback_update_write_offset stereo16_config 192 wrapping_state = Inr s'"
    and moved: "\<forall>i < unat (1500 :: size_t) + unat (192 :: size_t) - unat (1536 :: size_t).
        buffer s' ! i = swapped ! (unat (1536 :: size_t) + i)"
    and kept: "\<forall>j < 3456. unat (1500 :: size_t) + unat (192 :: size_t) - unat (1536 :: size_t) \<le> j
        \<longrightarrow> buffer s' ! j = swapped ! j"
    and off: "(1536 :: size_t) \<noteq> 0 \<longrightarrow> unat (buffer_write_offset s') =
        (unat (1500 :: size_t) + unat (192 :: size_t)) mod unat (1536 :: size_t)"
    unfolding vals by blast
  from off have "unat (buffer_write_offset s') =
      (unat (1500 :: size_t) + unat (192 :: size_t)) mod unat (1536 :: size_t)" by simp
  then have "word_of_nat (unat (buffer_write_offset s')) = (word_of_nat 156 :: size_t)"
    by (simp only: ar)
  then have "buffer_write_offset s' = 156" by simp
  moreover from moved have "\<forall>i < 156. buffer s' ! i = swapped ! (1536 + i)"
    unfolding ar by simp
  moreover from kept have "\<forall>j < 3456. 156 \<le> j \<longrightarrow> buffer s' ! j = swapped ! j"
    unfolding ar .
  ultimately show ?thesis using r h1 h2 vals by blast
qed

text \<open>
  Claim C5, as the code has it. The capacity that \<^verbatim>\<open>audio_playback_update_write_offset\<close>
  asserts is the length of the array, \<^verbatim>\<open>AUDIO_MAX_BUFFER_SIZE + AUDIO_MAX_PACKET_SIZE\<close>,
  whatever the buffer size of the current sample rate is. The call is a failed assertion
  when the new write offset, as \<^verbatim>\<open>size_t\<close>, is not below that length; so it is whenever
  write offset plus transaction size reaches the length of the array without overflowing
  \<^verbatim>\<open>size_t\<close>. When write offset plus transaction size is below the length of the array,
  the call returns: no access of the word swap or of the copy of the excess leaves the
  array.
\<close>

theorem write_guarded_by_array_length:
  assumes "sample_size_matches cfg" and "buffer_allocated cfg s"
  shows "(\<not> buffer_write_offset s + ts < ARRAY_LENGTH_buffer cfg
            \<longrightarrow> audio_playback_update_write_offset cfg ts s = Inl AssertFailed)
       \<and> (length (buffer s) \<le> unat (buffer_write_offset s) + unat ts
            \<and> unat (buffer_write_offset s) + unat ts < 2 ^ 32
            \<longrightarrow> audio_playback_update_write_offset cfg ts s = Inl AssertFailed)
       \<and> (unat (buffer_write_offset s) + unat ts < length (buffer s)
            \<longrightarrow> (\<exists>s'. audio_playback_update_write_offset cfg ts s = Inr s'
                       \<and> length (buffer s') = length (buffer s)))"
proof (intro conjI impI)
  assume "\<not> buffer_write_offset s + ts < ARRAY_LENGTH_buffer cfg"
  then show "audio_playback_update_write_offset cfg ts s = Inl AssertFailed"
    by (simp add: audio_playback_update_write_offset_def)
next
  assume a: "length (buffer s) \<le> unat (buffer_write_offset s) + unat ts
     \<and> unat (buffer_write_offset s) + unat ts < 2 ^ 32"
  then have "unat (buffer_write_offset s) + unat ts < 2 ^ LENGTH(32)" by simp
  then have "unat (buffer_write_offset s + ts) = unat (buffer_write_offset s) + unat ts"
    by (rule unat_add_lem [THEN iffD1])
  with a assms(2) have "\<not> buffer_write_offset s + ts < ARRAY_LENGTH_buffer cfg"
    by (simp add: buffer_allocated_def word_less_nat_alt)
  then show "audio_playback_update_write_offset cfg ts s = Inl AssertFailed"
    by (simp add: audio_playback_update_write_offset_def)
next
  assume "unat (buffer_write_offset s) + unat ts < length (buffer s)"
  from update_write_offset_succeeds [OF assms this]
  show "\<exists>s'. audio_playback_update_write_offset cfg ts s = Inr s'
           \<and> length (buffer s') = length (buffer s)"
    by auto
qed

theorem write_guarded_by_array_length_witness:
  "sample_size_matches stereo16_config \<and> buffer_allocated stereo16_config playing_state
   \<and> audio_playback_update_write_offset stereo16_config 3000 playing_state = Inl AssertFailed
   \<and> (\<exists>s'. audio_playback_update_write_offset stereo16_config 192 playing_state = Inr s'
           \<and> length (buffer s') = 3456)"
proof -
  have h1: "sample_size_matches stereo16_config"
    by (simp add: sample_size_matches_def stereo16_config_def)
  have h2: "buffer_allocated stereo16_config playing_state"
    by (simp add: buffer_allocated_def playing_state_def ARRAY_LENGTH_buffer_def
        stereo16_config_def)
  from write_guarded_by_array_length [OF h1 h2, of 3000]
    write_guarded_by_array_length [OF h1 h2, of 192] h1 h2
  show ?thesis
    by (simp add: playing_state_def ARRAY_LENGTH_buffer_def stereo16_config_def)
qed

text \<open>
  Claim C5 as stated fails. At 48 kHz the buffer size is 1536 and the largest packet has
  384 bytes, so the stated capacity is 1920. With the write offset at 1500, a transaction
  of 500 bytes takes the new offset to 2000: the array has 3456 bytes, the assertion holds,
  and the call returns with the write offset 464.
\<close>

theorem write_beyond_nominal_capacity_not_asserted:
  "unat (buffer_size wrapping_state) + unat (AUDIO_MAX_PACKET_SIZE stereo16_config)
     \<le> unat (buffer_write_offset wrapping_state) + unat (500 :: size_t)
   \<and> audio_playback_update_write_offset stereo16_config 500 wrapping_state \<noteq> Inl AssertFailed
   \<and> map_sum id buffer_write_offset
       (audio_playback_update_write_offset stereo16_config 500 wrapping_state) = Inr 464"
proof -
  have h1: "sample_size_matches stereo16_config"
    by (simp add: sample_size_matches_def stereo16_config_def)
  have h2: "buffer_allocated stereo16_config wrapping_state"
    by (simp add: buffer_allocated_def wrapping_state_def playing_state_def
        ARRAY_LENGTH_buffer_def stereo16_config_def)
  have h3: "unat (buffer_write_offset wrapping_state) + unat (500 :: size_t)
      < length (buffer wrapping_state)"
    by (simp add: wrapping_state_def playing_state_def)
  from update_write_offset_succeeds [OF h1 h2 h3] show ?thesis
    by (auto simp: wrapping_state_def playing_state_def stereo16_config_def wrap_unsigned_def)
qed

text \<open>
  Claim C6. When the read offset and the write offset are both below the buffer size, the
  fill size that \<^verbatim>\<open>audio_playback_update_fill_size\<close> computes is below the buffer size
  (and, being unsigned, not below 0); for equal offsets it is 0.
\<close>

theorem fill_size_below_buffer_size:
  assumes "buffer_read_offset s < buffer_size s" and "buffer_write_offset s < buffer_size s"
  shows "buffer_fill_size (audio_playback_update_fill_size s) < buffer_size s
       \<and> (buffer_read_offset s = buffer_write_offset s
            \<longrightarrow> buffer_fill_size (audio_playback_update_fill_size s) = 0)"
  using subtract_circular_unsigned_bound [OF assms(1)]
  by (simp add: audio_playback_update_fill_size_def subtract_circular_unsigned_same)

theorem fill_size_below_buffer_size_witness:
  "buffer_read_offset playing_state < buffer_size playing_state
   \<and> buffer_write_offset playing_state < buffer_size playing_state
   \<and> buffer_fill_size (audio_playback_update_fill_size playing_state) < buffer_size playing_state
   \<and> buffer_fill_size
       (audio_playback_update_fill_size (playing_state\<lparr>buffer_read_offset := 960\<rparr>)) = 0"
  using fill_size_below_buffer_size [of playing_state]
    fill_size_below_buffer_size [of "playing_state\<lparr>buffer_read_offset := 960\<rparr>"]
  by (simp add: playing_state_def)

section \<open>The claims about streaming sessions\<close>

text \<open>
  Claim C7. A second \<^verbatim>\<open>audio_playback_start_streaming\<close> right after the first leaves the
  state as the first call left it: while streaming is enabled the call changes nothing (no
  offset is reset, no USB transfer is started). \<^verbatim>\<open>audio_playback_stop_streaming\<close> while
  streaming is disabled changes nothing and posts no message.
\<close>

theorem start_stop_streaming_idempotent:
  "audio_playback_start_streaming cfg (audio_playback_start_streaming cfg s)
     = audio_playback_start_streaming cfg s
   \<and> (b_streaming_enabled s \<longrightarrow> audio_playback_start_streaming cfg s = s)
   \<and> (\<not> b_streaming_enabled s \<longrightarrow> audio_playback_stop_streaming s = s)"
  by (simp add: audio_playback_start_streaming_def audio_playback_stop_streaming_def Let_def)

theorem start_stop_streaming_idempotent_witness:
  "audio_playback_start_streaming stereo16_config
     (audio_playback_start_streaming stereo16_config (initial_state stereo16_config))
     = audio_playback_start_streaming stereo16_config (initial_state stereo16_config)
   \<and> b_streaming_enabled playing_state
   \<and> audio_playback_start_streaming stereo16_config playing_state = playing_state
   \<and> \<not> b_streaming_enabled (initial_state stereo16_config)
   \<and> audio_playback_stop_streaming (initial_state stereo16_config) = initial_state stereo16_config"
  using start_stop_streaming_idempotent [of stereo16_config "initial_state stereo16_config"]
    start_stop_streaming_idempotent [of stereo16_config playing_state]
  by (simp add: playing_state_def initial_state_def)

text \<open>
  Claim C8. After \<^verbatim>\<open>audio_playback_stop_streaming\<close> followed by
  \<^verbatim>\<open>audio_playback_start_streaming\<close> the write offset, the read offset and the fill size
  are 0 and playback is disabled, whatever the state was before the stop.
\<close>

theorem restart_resets_session:
  "buffer_write_offset (audio_playback_start_streaming cfg (audio_playback_stop_streaming s)) = 0
   \<and> buffer_read_offset (audio_playback_start_streaming cfg (audio_playback_stop_streaming s)) = 0
   \<and> buffer_fill_size (audio_playback_start_streaming cfg (audio_playback_stop_streaming s)) = 0
   \<and> \<not> b_playback_enabled (audio_playback_start_streaming cfg (audio_playback_stop_streaming s))"
  by (simp add: audio_playback_start_streaming_def audio_playback_stop_streaming_def Let_def
      audio_playback_stop_def audio_playback_is_enabled_def audio_playback_reset_def
      audio_playback_init_def)

text \<open>
  Claim C9. From a state with both flags false, no sequence of calls of
  \<^verbatim>\<open>audio_playback_init\<close>, \<^verbatim>\<open>audio_playback_set_sample_rate\<close>,
  \<^verbatim>\<open>audio_playback_start_streaming\<close>, \<^verbatim>\<open>audio_playback_stop_streaming\<close> and
  \<^verbatim>\<open>audio_playback_received_cb\<close> reaches a state where playback is enabled while
  streaming is disabled.
\<close>

theorem playback_implies_streaming:
  assumes "\<not> b_playback_enabled s0" and "\<not> b_streaming_enabled s0"
    and "run cfg cs s0 = Inr s"
  shows "\<not> (b_playback_enabled s \<and> \<not> b_streaming_enabled s)"
proof -
  from assms(1) have "flags_consistent s0" by (simp add: flags_consistent_def)
  from run_flags_consistent [OF this assms(3)] show ?thesis by (simp add: flags_consistent_def)
qed

theorem playback_implies_streaming_witness:
  "\<exists>s. run stereo16_config
          [Init 1 False, Set_sample_rate 48000, Start_streaming,
           Received_cb 1 packet_while_idle, Stop_streaming] (initial_state stereo16_config) = Inr s
      \<and> \<not> (b_playback_enabled s \<and> \<not> b_streaming_enabled s)"
proof -
  let ?cs = "[Init 1 False, Set_sample_rate 48000, Start_streaming,
              Received_cb 1 packet_while_idle, Stop_streaming]"
  have "\<exists>s. run stereo16_config ?cs (initial_state stereo16_config) = Inr s"
    by (simp add: initial_state_def stereo16_config_def packet_while_idle_def
        audio_playback_init_def audio_playback_reset_def
        audio_playback_received_cb_def audio_playback_update_write_offset_def
        swap_received_words_def copy_excess_def ARRAY_LENGTH_buffer_def wrap_unsigned_def
        audio_playback_update_read_offset_def audio_playback_update_fill_size_def
        subtract_circular_unsigned_def audio_playback_start_def audio_playback_is_enabled_def
        audio_playback_set_sample_rate_def AUDIO_COMMON_GET_BUFFER_SIZE_def
        audio_playback_start_streaming_def audio_playback_stop_streaming_def
        audio_playback_stop_def Let_def)
  then obtain s where r: "run stereo16_config ?cs (initial_state stereo16_config) = Inr s"
    by blast
  have h1: "\<not> b_playback_enabled (initial_state stereo16_config)"
    and h2: "\<not> b_streaming_enabled (initial_state stereo16_config)"
    by (simp_all add: initial_state_def)
  from playback_implies_streaming [OF h1 h2 r] r show ?thesis by blast
qed

text \<open>
  Claim C10. While streaming is disabled, \<^verbatim>\<open>audio_playback_received_cb\<close> returns with
  the state as it found it (offsets, fill size, target fill size, both flags, the contents
  of the buffer) and makes no call to the mailbox or the USB driver, whatever the
  peripherals report.
\<close>

theorem received_cb_ignored_when_idle:
  "\<not> b_streaming_enabled s \<Longrightarrow> audio_playback_received_cb cfg ep hw s = Inr s"
  by (simp add: audio_playback_received_cb_def)

theorem received_cb_ignored_when_idle_witness:
  "\<not> b_streaming_enabled (initial_state stereo16_config)
   \<and> audio_playback_received_cb stereo16_config 1 failed_transaction (initial_state stereo16_config)
       = Inr (initial_state stereo16_config)"
  using received_cb_ignored_when_idle
    [of "initial_state stereo16_config" stereo16_config 1 failed_transaction]
  by (simp add: initial_state_def)

end
